theory Spec2Isabelle
  imports Main "HOL-Library.Monad_Syntax" "HOL-Library.Multiset" "HOL-Library.Product_Lexorder"
begin

section \<open>Task tracker: the data model\<close>

text \<open>
  The program is one Python script, \<^verbatim>\<open>Task_tracker.py\<close>: two dataclasses, two
  relations, the functions that read and write them, the callbacks bound to the
  forms and buttons, and the top-level script that filters, sorts and renders the
  cached tasks.

  A \<^verbatim>\<open>datetime.date\<close> is the triple (year, month, day); the lexicographic order of
  triples is the order of dates. \<^verbatim>\<open>date.max\<close> is 9999-12-31, and every date that
  Python can build is at most \<^verbatim>\<open>date.max\<close>.
\<close>

type_synonym date = "nat \<times> nat \<times> nat"

definition date_max :: date where
  "date_max = (9999, 12, 31)"

text \<open>
  The dataclass \<^verbatim>\<open>Todo\<close>. The field \<^verbatim>\<open>id\<close> is \<open>id_t\<close> and \<^verbatim>\<open>done\<close> is
  \<open>done_t\<close> here. A \<^verbatim>\<open>Todo\<close> is only ever built by \<^verbatim>\<open>from_row\<close> from a stored row,
  whose primary key is never null, so \<open>id_t\<close> is an integer; the fields declared
  \<^verbatim>\<open>Optional\<close> are options.
\<close>

record todo =
  id_t :: int
  title :: string
  description :: "string option"
  label :: "string option"
  requester :: "string option"
  priority :: "string option"
  status :: "string option"
  created_at :: "date option"
  due_at :: "date option"
  done_t :: bool

text \<open>The dataclass \<^verbatim>\<open>Subtask\<close> (fields \<^verbatim>\<open>id\<close>, \<^verbatim>\<open>todo_id\<close>, \<^verbatim>\<open>title\<close>, \<^verbatim>\<open>done\<close>).\<close>

record subtask =
  sub_id :: int
  todo_id :: int
  sub_title :: string
  sub_done :: bool

text \<open>
  \<^verbatim>\<open>from_row\<close> of both classes: a fetched row becomes the object with the same
  columns, a missing row (\<^verbatim>\<open>None\<close>, which \<^verbatim>\<open>result.first()\<close> returns when nothing
  matches) stays \<^verbatim>\<open>None\<close>.
\<close>

definition from_row :: "'a option \<Rightarrow> 'a option" where
  "from_row row = (case row of Some r \<Rightarrow> Some r | None \<Rightarrow> None)"

datatype error = KeyError | AttributeError | DataError

section \<open>The relational store\<close>

text \<open>
  The values of an \<^verbatim>\<open>INSERT\<close> into \<^verbatim>\<open>todo\<close> (the dict \<^verbatim>\<open>new_todo_data\<close>) and of the
  \<^verbatim>\<open>UPDATE\<close> issued by the edit form (the dict \<^verbatim>\<open>updated_values\<close>).
\<close>

record new_todo_data =
  title_v :: string
  description_v :: "string option"
  requester_v :: "string option"
  label_v :: "string option"
  priority_v :: "string option"
  status_v :: "string option"
  created_at_v :: "date option"
  due_at_v :: "date option"
  done_v :: bool

record updated_values =
  title_u :: string
  description_u :: "string option"
  status_u :: "string option"
  requester_u :: "string option"
  due_at_u :: "date option"

text \<open>The statements that write, as the functions of the script build them.\<close>

datatype write_stmt =
    Insert_todo new_todo_data
  | Update_todo int updated_values
  | Update_done int bool
  | Delete_todo int
  | Insert_subtask int string
  | Update_subtask_done int bool
  | Update_subtasks_done int

text \<open>
  The store holds the rows of the two relations. \<open>writes\<close> records, in order, every
  writing statement that was executed and committed; it is the only part of the
  model that is not data of the program, and no function reads it.

  \<^verbatim>\<open>connect_table\<close> declares lengths for the text columns: title \<^verbatim>\<open>String(30)\<close>, label
  \<^verbatim>\<open>String(20)\<close>, priority \<^verbatim>\<open>String(10)\<close>, status \<^verbatim>\<open>String(20)\<close>, requester
  \<^verbatim>\<open>String(50)\<close>, and \<^verbatim>\<open>String(100)\<close> for the title of a subtask; the description has
  none. The script never checks them and its forms set no maximal length. Whether a
  longer value is refused depends on the store behind the connection: PostgreSQL
  (the connection \<^verbatim>\<open>supabase_db\<close> of the script) raises a \<^verbatim>\<open>DataError\<close>, SQLite (the
  connection \<^verbatim>\<open>todo_db\<close> that is commented out) stores the value. \<open>enforces_lengths\<close>
  says which kind the store is. A length is counted in elements of the string, which
  is the number of characters for ASCII text.
\<close>

record database =
  enforces_lengths :: bool
  todo_rows :: "todo list"
  subtask_rows :: "subtask list"
  writes :: "write_stmt list"

definition fits :: "nat \<Rightarrow> string option \<Rightarrow> bool" where
  "fits n v = (case v of None \<Rightarrow> True | Some s \<Rightarrow> length s \<le> n)"

definition insert_accepted :: "database \<Rightarrow> new_todo_data \<Rightarrow> bool" where
  "insert_accepted d v \<longleftrightarrow>
     (enforces_lengths d \<longrightarrow>
        length (title_v v) \<le> 30 \<and> fits 20 (label_v v) \<and> fits 10 (priority_v v) \<and>
        fits 20 (status_v v) \<and> fits 50 (requester_v v))"

definition update_accepted :: "database \<Rightarrow> updated_values \<Rightarrow> bool" where
  "update_accepted d u \<longleftrightarrow>
     (enforces_lengths d \<longrightarrow>
        length (title_u u) \<le> 30 \<and> fits 20 (status_u u) \<and> fits 50 (requester_u u))"

text \<open>
  The primary key of a new row is assigned by the store, not by the script. The
  model takes the smallest identifier above every stored one (and 1 for an empty
  relation), which is never the identifier of a stored row.

  \<open>insert_row\<close> is the store after an \<^verbatim>\<open>INSERT\<close> that went through, and \<open>exec_insert\<close> is
  \<^verbatim>\<open>session.execute(stmt); session.commit()\<close>: a statement that the store refuses
  raises and changes nothing. The same holds for \<open>update_rows\<close> and \<open>exec_update\<close>. A
  store that enforces the lengths is taken to refuse every statement that carries a
  longer value, also an \<^verbatim>\<open>UPDATE\<close> that matches no row.
\<close>

definition next_id :: "todo list \<Rightarrow> int" where
  "next_id rows = fold max (map id_t rows) 0 + 1"

definition insert_row :: "database \<Rightarrow> new_todo_data \<Rightarrow> database" where
  "insert_row d v =
     d\<lparr>todo_rows := todo_rows d @
          [\<lparr>id_t = next_id (todo_rows d), title = title_v v,
            description = description_v v, label = label_v v,
            requester = requester_v v, priority = priority_v v,
            status = status_v v, created_at = created_at_v v,
            due_at = due_at_v v, done_t = done_v v\<rparr>],
       writes := writes d @ [Insert_todo v]\<rparr>"

definition exec_insert :: "database \<Rightarrow> new_todo_data \<Rightarrow> error + database" where
  "exec_insert d v = (if insert_accepted d v then Inr (insert_row d v) else Inl DataError)"

definition set_values :: "updated_values \<Rightarrow> todo \<Rightarrow> todo" where
  "set_values u r =
     r\<lparr>title := title_u u, description := description_u u, status := status_u u,
       requester := requester_u u, due_at := due_at_u u\<rparr>"

definition update_rows :: "database \<Rightarrow> int \<Rightarrow> updated_values \<Rightarrow> database" where
  "update_rows d i u =
     d\<lparr>todo_rows := map (\<lambda>r. if id_t r = i then set_values u r else r) (todo_rows d),
       writes := writes d @ [Update_todo i u]\<rparr>"

definition exec_update :: "database \<Rightarrow> int \<Rightarrow> updated_values \<Rightarrow> error + database" where
  "exec_update d i u = (if update_accepted d u then Inr (update_rows d i u) else Inl DataError)"

definition exec_update_done :: "database \<Rightarrow> int \<Rightarrow> bool \<Rightarrow> database" where
  "exec_update_done d i b =
     d\<lparr>todo_rows := map (\<lambda>r. if id_t r = i then r\<lparr>done_t := b\<rparr> else r) (todo_rows d),
       writes := writes d @ [Update_done i b]\<rparr>"

definition exec_delete :: "database \<Rightarrow> int \<Rightarrow> database" where
  "exec_delete d i =
     d\<lparr>todo_rows := filter (\<lambda>r. id_t r \<noteq> i) (todo_rows d),
       writes := writes d @ [Delete_todo i]\<rparr>"

text \<open>
  A Python dict keeps its keys in insertion order: assigning to a key that is
  present replaces the value in place, assigning to a new key appends it.
\<close>

fun dict_set :: "('k \<times> 'v) list \<Rightarrow> 'k \<Rightarrow> 'v \<Rightarrow> ('k \<times> 'v) list" where
  "dict_set [] k v = [(k, v)]"
| "dict_set (p # d) k v = (if fst p = k then (k, v) # d else p # dict_set d k v)"

text \<open>
  \<^verbatim>\<open>load_all_todos\<close>: every row ordered by \<^verbatim>\<open>id\<close>, turned into a \<^verbatim>\<open>Todo\<close>, and
  collected by the dict comprehension \<^verbatim>\<open>{todo.id: todo for todo in todos if todo}\<close>.
  The cache it fills is later assigned results of \<^verbatim>\<open>load_todo\<close>, which may be
  \<^verbatim>\<open>None\<close>, so the values of the dict are options.
\<close>

definition load_all_todos :: "database \<Rightarrow> (int \<times> todo option) list" where
  "load_all_todos d =
     (let todos = map (\<lambda>row. from_row (Some row)) (sort_key id_t (todo_rows d))
      in foldl (\<lambda>acc t. dict_set acc (id_t t) (Some t)) [] (List.map_filter (\<lambda>t. t) todos))"

text \<open>\<^verbatim>\<open>load_todo\<close>: the first row with the identifier, or \<^verbatim>\<open>None\<close>.\<close>

definition load_todo :: "database \<Rightarrow> int \<Rightarrow> todo option" where
  "load_todo d i = from_row (find (\<lambda>r. id_t r = i) (todo_rows d))"

subsection \<open>Subtasks\<close>

definition load_subtasks :: "database \<Rightarrow> int \<Rightarrow> subtask option list" where
  "load_subtasks d i =
     map (\<lambda>row. from_row (Some row)) (filter (\<lambda>s. todo_id s = i) (subtask_rows d))"

definition next_sub_id :: "subtask list \<Rightarrow> int" where
  "next_sub_id rows = fold max (map sub_id rows) 0 + 1"

definition create_subtask :: "database \<Rightarrow> int \<Rightarrow> string \<Rightarrow> error + database" where
  "create_subtask d i t =
     (if enforces_lengths d \<and> 100 < length t then Inl DataError
      else Inr (d\<lparr>subtask_rows := subtask_rows d @
                  [\<lparr>sub_id = next_sub_id (subtask_rows d), todo_id = i, sub_title = t,
                    sub_done = False\<rparr>],
                 writes := writes d @ [Insert_subtask i t]\<rparr>))"

definition toggle_subtask_done :: "database \<Rightarrow> int \<Rightarrow> bool \<Rightarrow> database" where
  "toggle_subtask_done d i new_done =
     d\<lparr>subtask_rows :=
          map (\<lambda>s. if sub_id s = i then s\<lparr>sub_done := new_done\<rparr> else s) (subtask_rows d),
       writes := writes d @ [Update_subtask_done i new_done]\<rparr>"

definition mark_all_subtasks_done :: "database \<Rightarrow> int \<Rightarrow> database" where
  "mark_all_subtasks_done d i =
     d\<lparr>subtask_rows :=
          map (\<lambda>s. if todo_id s = i then s\<lparr>sub_done := True\<rparr> else s) (subtask_rows d),
       writes := writes d @ [Update_subtasks_done i]\<rparr>"

section \<open>Session state and forms\<close>

text \<open>
  The keys of \<^verbatim>\<open>st.session_state\<close> that belong to form widgets:
  \<^verbatim>\<open>new_todo_form__<field>\<close> and \<^verbatim>\<open>edit_todo_form_<todo_id>__<field>\<close>.
\<close>

datatype key = New_todo_form string | Edit_todo_form int string

text \<open>
  The session state: the cache under \<^verbatim>\<open>todos_data\<close>, the values of the text and
  choice widgets (a string or \<^verbatim>\<open>None\<close>), the values of the date widgets (a date or
  \<^verbatim>\<open>None\<close>), and the flags \<^verbatim>\<open>currently_editing__<todo_id>\<close>. A key that no widget
  has registered is absent from the map.
\<close>

record session_state =
  todos_data :: "(int \<times> todo option) list"
  text_widgets :: "key \<rightharpoonup> string option"
  date_widgets :: "key \<rightharpoonup> date option"
  currently_editing :: "int \<rightharpoonup> bool"

record world =
  db :: database
  session :: session_state
  toasts :: "string list"

text \<open>
  What the user submits with the form \<^verbatim>\<open>new_todo_form\<close>, and the form itself: its
  seven widgets store their values under their keys.
\<close>

record new_todo_inputs =
  in_title :: string
  in_description :: string
  in_requester :: string
  in_priority :: string
  in_status :: string
  in_label :: string
  in_due_date :: date

definition new_todo_form :: "new_todo_inputs \<Rightarrow> session_state \<Rightarrow> session_state" where
  "new_todo_form i s =
     s\<lparr>text_widgets := (text_widgets s)
          (New_todo_form ''title'' \<mapsto> Some (in_title i),
           New_todo_form ''description'' \<mapsto> Some (in_description i),
           New_todo_form ''requester'' \<mapsto> Some (in_requester i),
           New_todo_form ''priority'' \<mapsto> Some (in_priority i),
           New_todo_form ''status'' \<mapsto> Some (in_status i),
           New_todo_form ''label'' \<mapsto> Some (in_label i)),
       date_widgets := (date_widgets s)
          (New_todo_form ''due_date'' \<mapsto> Some (in_due_date i))\<rparr>"

text \<open>
  \<^verbatim>\<open>todo_edit_widget\<close>: the edit form of a task has three widgets, for the title,
  the description and the due date, and two submit buttons.
\<close>

record edit_inputs =
  ed_title :: string
  ed_description :: "string option"
  ed_due_date :: "date option"

definition todo_edit_widget :: "int \<Rightarrow> edit_inputs \<Rightarrow> session_state \<Rightarrow> session_state" where
  "todo_edit_widget i e s =
     s\<lparr>text_widgets := (text_widgets s)
          (Edit_todo_form i ''title'' \<mapsto> Some (ed_title e),
           Edit_todo_form i ''description'' \<mapsto> ed_description e),
       date_widgets := (date_widgets s)
          (Edit_todo_form i ''due_date'' \<mapsto> ed_due_date e)\<rparr>"

section \<open>Callbacks\<close>

text \<open>
  A callback returns the exception it raised, if any, and the world it leaves. An
  exception is raised either before the statement is executed or by the statement
  that the store refuses, which changes nothing, so an exception leaves the world as
  it was. \<^verbatim>\<open>not title\<close> holds for \<^verbatim>\<open>None\<close> and for the empty string.
  \<^verbatim>\<open>create_todo_callback\<close> and \<^verbatim>\<open>delete_todo_callback\<close> reload the cache through the
  module-level \<^verbatim>\<open>conn\<close> and \<^verbatim>\<open>todo_table\<close>, which are the connection and the table
  that every caller passes, so the model has one store. \<^verbatim>\<open>date.today()\<close> is the
  parameter \<open>today\<close>. Of a toast only the message is kept.
\<close>

definition falsy :: "string option \<Rightarrow> bool" where
  "falsy v = (case v of None \<Rightarrow> True | Some s \<Rightarrow> s = [])"

text \<open>The string held by a text value; it is only used on values that are not falsy.\<close>

definition str_of :: "string option \<Rightarrow> string" where
  "str_of v = (case v of None \<Rightarrow> [] | Some s \<Rightarrow> s)"

definition create_todo_callback :: "date \<Rightarrow> world \<Rightarrow> error option \<times> world" where
  "create_todo_callback today w =
     (let s = session w in
      case text_widgets s (New_todo_form ''title'') of
        None \<Rightarrow> (Some AttributeError, w)
      | Some t \<Rightarrow>
          if falsy t then (None, w\<lparr>toasts := toasts w @ [''Title empty, not adding todo'']\<rparr>)
          else
            (case do {
                 de \<leftarrow> text_widgets s (New_todo_form ''description'');
                 rq \<leftarrow> text_widgets s (New_todo_form ''requester'');
                 la \<leftarrow> text_widgets s (New_todo_form ''label'');
                 pr \<leftarrow> text_widgets s (New_todo_form ''priority'');
                 st \<leftarrow> text_widgets s (New_todo_form ''status'');
                 du \<leftarrow> date_widgets s (New_todo_form ''due_date'');
                 Some \<lparr>title_v = str_of t, description_v = de, requester_v = rq,
                       label_v = la, priority_v = pr, status_v = st,
                       created_at_v = Some today, due_at_v = du, done_v = False\<rparr>
               } of
               None \<Rightarrow> (Some AttributeError, w)
             | Some new_todo_data \<Rightarrow>
                 (case exec_insert (db w) new_todo_data of
                    Inl e \<Rightarrow> (Some e, w)
                  | Inr d \<Rightarrow>
                      (None, w\<lparr>db := d, session := s\<lparr>todos_data := load_all_todos d\<rparr>\<rparr>))))"

definition open_update_callback :: "world \<Rightarrow> int \<Rightarrow> world" where
  "open_update_callback w i =
     w\<lparr>session := (session w)\<lparr>currently_editing := (currently_editing (session w))(i \<mapsto> True)\<rparr>\<rparr>"

definition cancel_update_callback :: "world \<Rightarrow> int \<Rightarrow> world" where
  "cancel_update_callback w i =
     w\<lparr>session := (session w)\<lparr>currently_editing := (currently_editing (session w))(i \<mapsto> False)\<rparr>\<rparr>"

definition update_todo_callback :: "world \<Rightarrow> int \<Rightarrow> error option \<times> world" where
  "update_todo_callback w i =
     (let s = session w in
      case do {
          t \<leftarrow> text_widgets s (Edit_todo_form i ''title'');
          de \<leftarrow> text_widgets s (Edit_todo_form i ''description'');
          st \<leftarrow> text_widgets s (Edit_todo_form i ''status'');
          rq \<leftarrow> text_widgets s (Edit_todo_form i ''requester'');
          du \<leftarrow> date_widgets s (Edit_todo_form i ''due_date'');
          Some (t, \<lparr>title_u = str_of t, description_u = de, status_u = st,
                     requester_u = rq, due_at_u = du\<rparr>)
        } of
        None \<Rightarrow> (Some KeyError, w)
      | Some (t, updated_values) \<Rightarrow>
          if falsy t then
            (None, w\<lparr>toasts := toasts w @ [''Title cannot be empty.''],
                     session := s\<lparr>currently_editing := (currently_editing s)(i \<mapsto> True)\<rparr>\<rparr>)
          else
            (case exec_update (db w) i updated_values of
               Inl e \<Rightarrow> (Some e, w)
             | Inr d \<Rightarrow>
                 (None, w\<lparr>db := d,
                          session := s\<lparr>todos_data := dict_set (todos_data s) i (load_todo d i),
                                        currently_editing := (currently_editing s)(i \<mapsto> False)\<rparr>\<rparr>)))"

definition delete_todo_callback :: "world \<Rightarrow> int \<Rightarrow> error option \<times> world" where
  "delete_todo_callback w i =
     (let d = exec_delete (db w) i; s = session w
      in (None, w\<lparr>db := d,
                  session := s\<lparr>todos_data := load_all_todos d,
                                currently_editing := (currently_editing s)(i \<mapsto> False)\<rparr>\<rparr>))"

definition mark_done_callback :: "world \<Rightarrow> int \<Rightarrow> error option \<times> world" where
  "mark_done_callback w i =
     (let s = session w in
      case map_of (todos_data s) i of
        None \<Rightarrow> (Some KeyError, w)
      | Some None \<Rightarrow> (Some AttributeError, w)
      | Some (Some cached) \<Rightarrow>
          let current_done_status = done_t cached;
              d = exec_update_done (db w) i (\<not> current_done_status)
          in (None, w\<lparr>db := d,
                      session := s\<lparr>todos_data := dict_set (todos_data s) i (load_todo d i)\<rparr>\<rparr>))"

section \<open>The script: filtering and sorting the cached tasks\<close>

text \<open>The options of the three multiselect filters of the sidebar.\<close>

definition priority_options :: "string list" where
  "priority_options = [''low'', ''medium'', ''high'']"

definition status_options :: "string list" where
  "status_options = [''to-do'', ''in progress'', ''completed'', ''blocked'']"

definition label_options :: "string list" where
  "label_options = [''work'', ''school'', ''personal'', ''others'']"

text \<open>
  \<^verbatim>\<open>x in selected\<close> for an optional string and a list of strings: \<^verbatim>\<open>None\<close> is equal
  to no string.
\<close>

definition in_list :: "string option \<Rightarrow> string list \<Rightarrow> bool" where
  "in_list v xs = (case v of None \<Rightarrow> False | Some s \<Rightarrow> s \<in> set xs)"

text \<open>The condition of the list comprehension that filters the tasks.\<close>

definition keep_todo :: "string list \<Rightarrow> string list \<Rightarrow> string list \<Rightarrow> bool \<Rightarrow> todo \<Rightarrow> bool" where
  "keep_todo filter_label filter_priority filter_status hide_done t =
     (in_list (label t) filter_label \<and> in_list (priority t) filter_priority \<and>
      in_list (status t) filter_status \<and> (\<not> hide_done \<or> \<not> done_t t))"

text \<open>
  The comprehension runs over \<^verbatim>\<open>list(current_todos.values())\<close>. Reading \<^verbatim>\<open>todo.label\<close>
  of a value that is \<^verbatim>\<open>None\<close> raises \<^verbatim>\<open>AttributeError\<close>.
\<close>

fun filtered_todos ::
  "string list \<Rightarrow> string list \<Rightarrow> string list \<Rightarrow> bool \<Rightarrow> todo option list \<Rightarrow> error + todo list" where
  "filtered_todos fl fp fs h [] = Inr []"
| "filtered_todos fl fp fs h (None # vs) = Inl AttributeError"
| "filtered_todos fl fp fs h (Some t # vs) =
     (case filtered_todos fl fp fs h vs of
        Inl e \<Rightarrow> Inl e
      | Inr r \<Rightarrow> Inr (if keep_todo fl fp fs h t then t # r else r))"

definition current_values :: "session_state \<Rightarrow> todo option list" where
  "current_values s = map snd (todos_data s)"

text \<open>
  The sort: \<^verbatim>\<open>sort_by\<close> is one of the two options of the select box, the key is
  \<^verbatim>\<open>getattr(x, sort_by) or date.max\<close> (a date is never falsy), and
  \<^verbatim>\<open>reverse_sort = sort_ascending == "Descending"\<close>. \<^verbatim>\<open>list.sort\<close> is stable, and
  with \<^verbatim>\<open>reverse=True\<close> it still keeps elements with equal keys in their
  original order: it sorts the reversed list and reverses the result.
\<close>

datatype sort_field = Due_at | Created_at

definition sort_value :: "sort_field \<Rightarrow> todo \<Rightarrow> date" where
  "sort_value sort_by x =
     (case (case sort_by of Due_at \<Rightarrow> due_at x | Created_at \<Rightarrow> created_at x) of
        None \<Rightarrow> date_max
      | Some d \<Rightarrow> d)"

definition sort_todos :: "sort_field \<Rightarrow> string \<Rightarrow> todo list \<Rightarrow> todo list" where
  "sort_todos sort_by sort_ascending ts =
     (let reverse_sort = (sort_ascending = ''Descending'')
      in if reverse_sort then rev (sort_key (sort_value sort_by) (rev ts))
         else sort_key (sort_value sort_by) ts)"

section \<open>Rendering a card\<close>

text \<open>
  The library functions that the card calls are parameters: \<^verbatim>\<open>str.title\<close>,
  \<^verbatim>\<open>date.strftime\<close> on a date, and \<^verbatim>\<open>urllib.parse.urlencode\<close>. Strings are byte
  strings here, so the emoji of the source appear as their UTF-8 bytes.
\<close>

record pylib =
  str_title :: "string \<Rightarrow> string"
  strftime :: "date \<Rightarrow> string \<Rightarrow> string"
  urlencode :: "(string \<times> string) list \<Rightarrow> string"

text \<open>
  \<^verbatim>\<open>generate_gcal_link\<close>: its first statement calls \<^verbatim>\<open>due_date.strftime\<close>, which
  raises \<^verbatim>\<open>AttributeError\<close> when \<^verbatim>\<open>due_date\<close> is \<^verbatim>\<open>None\<close>.
\<close>

definition generate_gcal_link ::
  "pylib \<Rightarrow> string \<Rightarrow> string option \<Rightarrow> date option \<Rightarrow> error + string" where
  "generate_gcal_link L title_arg description_arg due_date =
     (let base = ''https://calendar.google.com/calendar/render'' in
      case due_date of
        None \<Rightarrow> Inl AttributeError
      | Some d \<Rightarrow>
          let start = strftime L d ''%Y%m%dT090000Z'';
              end_s = strftime L d ''%Y%m%dT100000Z'';
              params =
                [(''action'', ''TEMPLATE''),
                 (''text'', title_arg),
                 (''details'', if falsy description_arg then ''No description provided.''
                               else str_of description_arg),
                 (''dates'', start @ ''/'' @ end_s)]
          in Inr (base @ ''?'' @ urlencode L params))"

datatype element = Subheader string | Markdown string | Caption string

fun join :: "string \<Rightarrow> string list \<Rightarrow> string" where
  "join sep [] = []"
| "join sep [x] = x"
| "join sep (x # y # ys) = x @ sep @ join sep (y # ys)"

definition meta_item :: "pylib \<Rightarrow> string \<Rightarrow> string option \<Rightarrow> string list" where
  "meta_item L icon v =
     (if falsy v then [] else [icon @ '' <strong>'' @ str_title L (str_of v) @ ''</strong>''])"

text \<open>
  \<^verbatim>\<open>todo_card\<close>, from its first statement to the calendar button: the title, the
  meta row, the description, the requester, the due-date caption and the calendar
  link. The two places that can raise are the \<^verbatim>\<open>strftime\<close> of the caption and the
  call of \<^verbatim>\<open>generate_gcal_link\<close>; the action buttons and the subtask section come
  after them.
\<close>

definition todo_card :: "pylib \<Rightarrow> todo \<Rightarrow> error + element list" where
  \<open>todo_card L todo_item =
     (let display_title =
            (if done_t todo_item then ''~~'' @ title todo_item @ ''~~'' else title todo_item);
          meta_items =
            meta_item L [CHR 0xF0, CHR 0x9F, CHR 0x8F, CHR 0xB7, CHR 0xEF, CHR 0xB8, CHR 0x8F]
              (label todo_item) @
            meta_item L [CHR 0xF0, CHR 0x9F, CHR 0x94, CHR 0xB5] (priority todo_item) @
            meta_item L [CHR 0xF0, CHR 0x9F, CHR 0x93, CHR 0x8C] (status todo_item);
          meta_text = join '' &nbsp;|&nbsp; '' meta_items;
          description0 =
            (if falsy (description todo_item) then '':grey[*No description*]''
             else str_of (description todo_item));
          display_description =
            (if done_t todo_item then ''~~'' @ description0 @ ''~~'' else description0);
          display_requester =
            (if falsy (requester todo_item) then '':grey[*No requester*]''
             else str_of (requester todo_item))
      in case due_at todo_item of
           None \<Rightarrow> Inl AttributeError
         | Some d \<Rightarrow>
             let due0 = ''Due '' @ strftime L d ''%Y-%m-%d'';
                 display_due_date = (if done_t todo_item then ''~~'' @ due0 @ ''~~'' else due0)
             in (case generate_gcal_link L (title todo_item) (description todo_item)
                       (due_at todo_item) of
                  Inl e \<Rightarrow> Inl e
                | Inr calendar_link \<Rightarrow>
                    Inr [Subheader display_title,
                         Markdown (''<div style='text-align: right; font-size: 14px;'>'' @
                                   meta_text @ ''</div>''),
                         Markdown display_description,
                         Markdown (''**Requester:** '' @ display_requester),
                         Caption display_due_date,
                         Markdown (''<a href="'' @ calendar_link @
                           ''" target="_blank"><button style="background-color:#e0e0e0; color:#333; font-size:12px; padding:4px 8px; border:none; border-radius:4px;">'' @
                           [CHR 0xF0, CHR 0x9F, CHR 0x93, CHR 0x85] @
                           '' Add to Google Calendar</button></a>'')]))\<close>

section \<open>The properties, stated on the model\<close>

text \<open>
  The cache mirrors the store: identifiers are unique in the relation (the primary
  key) and the cache holds what \<^verbatim>\<open>load_all_todos\<close> returns. The script loads the cache
  this way on its first run, and in a single session every callback keeps it so.
\<close>

definition cache_in_sync :: "world \<Rightarrow> bool" where
  "cache_in_sync w \<longleftrightarrow>
     distinct (map id_t (todo_rows (db w))) \<and> todos_data (session w) = load_all_todos (db w)"

text \<open>
  The values that a submitted \<^verbatim>\<open>new_todo_form\<close> should store, and the row they
  should become under the identifier \<open>n\<close>.
\<close>

definition submitted_data :: "date \<Rightarrow> new_todo_inputs \<Rightarrow> new_todo_data" where
  "submitted_data today i =
     \<lparr>title_v = in_title i, description_v = Some (in_description i),
      requester_v = Some (in_requester i), label_v = Some (in_label i),
      priority_v = Some (in_priority i), status_v = Some (in_status i),
      created_at_v = Some today, due_at_v = Some (in_due_date i), done_v = False\<rparr>"

definition submitted_row :: "int \<Rightarrow> date \<Rightarrow> new_todo_inputs \<Rightarrow> todo" where
  "submitted_row n today i =
     \<lparr>id_t = n, title = in_title i, description = Some (in_description i),
      label = Some (in_label i), requester = Some (in_requester i),
      priority = Some (in_priority i), status = Some (in_status i),
      created_at = Some today, due_at = Some (in_due_date i), done_t = False\<rparr>"

text \<open>
  \<open>all_before A B xs\<close>: in \<open>xs\<close>, every element that satisfies \<open>A\<close> stands before
  every element that satisfies \<open>B\<close>.
\<close>

fun all_before :: "('a \<Rightarrow> bool) \<Rightarrow> ('a \<Rightarrow> bool) \<Rightarrow> 'a list \<Rightarrow> bool" where
  "all_before A B [] = True"
| "all_before A B (x # xs) = ((B x \<longrightarrow> list_all (\<lambda>y. \<not> A y) xs) \<and> all_before A B xs)"

definition no_due :: "todo \<Rightarrow> bool" where
  "no_due t = (due_at t = None)"

definition has_due :: "todo \<Rightarrow> bool" where
  "has_due t = (due_at t \<noteq> None)"

definition due_before_max :: "todo \<Rightarrow> bool" where
  "due_before_max t = (case due_at t of None \<Rightarrow> False | Some d \<Rightarrow> d < date_max)"

subsection \<open>Sample data\<close>

definition report_todo :: todo where
  "report_todo =
     \<lparr>id_t = 1, title = ''Write report'', description = Some ''Quarterly figures'',
      label = Some ''work'', requester = Some ''Ada'', priority = Some ''high'',
      status = Some ''to-do'', created_at = Some (2024, 5, 20), due_at = Some (2024, 6, 1),
      done_t = False\<rparr>"

definition sample_db :: database where
  "sample_db =
     \<lparr>enforces_lengths = True, todo_rows = [report_todo],
      subtask_rows = [\<lparr>sub_id = 1, todo_id = 1, sub_title = ''Collect data'', sub_done = False\<rparr>],
      writes = []\<rparr>"

definition sample_world :: world where
  "sample_world =
     \<lparr>db = sample_db,
      session = \<lparr>todos_data = [(1, Some report_todo)], text_widgets = Map.empty,
                 date_widgets = Map.empty, currently_editing = Map.empty\<rparr>,
      toasts = []\<rparr>"

definition milk_inputs :: new_todo_inputs where
  "milk_inputs =
     \<lparr>in_title = ''Buy milk'', in_description = '''', in_requester = '''',
      in_priority = ''medium'', in_status = ''to-do'', in_label = ''personal'',
      in_due_date = (2024, 6, 3)\<rparr>"

text \<open>A session in which both forms were submitted with an empty title.\<close>

definition blank_title_world :: world where
  "blank_title_world =
     sample_world\<lparr>session := (session sample_world)
       \<lparr>text_widgets :=
          [New_todo_form ''title'' \<mapsto> Some [],
           Edit_todo_form 1 ''title'' \<mapsto> Some [],
           Edit_todo_form 1 ''description'' \<mapsto> Some ''Quarterly figures'',
           Edit_todo_form 1 ''status'' \<mapsto> Some ''in progress'',
           Edit_todo_form 1 ''requester'' \<mapsto> Some ''Ada''],
        date_widgets := [Edit_todo_form 1 ''due_date'' \<mapsto> Some (2024, 6, 1)]\<rparr>\<rparr>"

text \<open>Tasks with a missing label, a missing due date, and the latest due date.\<close>

definition unlabelled_todo :: todo where
  "unlabelled_todo = report_todo\<lparr>id_t := 2, title := ''Call home'', label := None\<rparr>"

definition done_todo :: todo where
  "done_todo = report_todo\<lparr>id_t := 3, title := ''Read mail'', done_t := True\<rparr>"

definition undated_todo :: todo where
  "undated_todo = report_todo\<lparr>id_t := 4, title := ''Some day'', due_at := None\<rparr>"

definition last_day_todo :: todo where
  "last_day_todo = report_todo\<lparr>id_t := 5, title := ''Far future'', due_at := Some date_max\<rparr>"

text \<open>
  A world in which another session has inserted task 2 since the cache was loaded, a
  world in which the cached task 1 has been deleted from the store since, and a
  submission whose title has 32 characters.
\<close>

definition stale_world :: world where
  "stale_world = sample_world\<lparr>db := sample_db\<lparr>todo_rows := [report_todo, unlabelled_todo]\<rparr>\<rparr>"


definition long_title_inputs :: new_todo_inputs where
  "long_title_inputs = milk_inputs\<lparr>in_title := ''Buy milk, bread, butter and eggs''\<rparr>"

text \<open>
  A session in which both forms hold complete, valid submissions, and what the user
  enters in the edit form of task 1.
\<close>

definition filled_world :: world where
  "filled_world =
     sample_world\<lparr>session := (session sample_world)
       \<lparr>text_widgets :=
          [New_todo_form ''title'' \<mapsto> Some ''Buy milk'',
           New_todo_form ''description'' \<mapsto> Some '''',
           New_todo_form ''requester'' \<mapsto> Some '''',
           New_todo_form ''priority'' \<mapsto> Some ''medium'',
           New_todo_form ''status'' \<mapsto> Some ''to-do'',
           New_todo_form ''label'' \<mapsto> Some ''personal'',
           Edit_todo_form 1 ''title'' \<mapsto> Some ''Write report v2'',
           Edit_todo_form 1 ''description'' \<mapsto> Some ''Quarterly figures'',
           Edit_todo_form 1 ''status'' \<mapsto> Some ''in progress'',
           Edit_todo_form 1 ''requester'' \<mapsto> Some ''Ada''],
        date_widgets :=
          [New_todo_form ''due_date'' \<mapsto> Some (2024, 6, 3),
           Edit_todo_form 1 ''due_date'' \<mapsto> Some (2024, 6, 1)]\<rparr>\<rparr>"

definition report_v2_edit :: edit_inputs where
  "report_v2_edit =
     \<lparr>ed_title = ''Write report v2'', ed_description = Some ''Quarterly figures'',
      ed_due_date = Some (2024, 6, 1)\<rparr>"

text \<open>Stand-ins for the library functions, to evaluate a card.\<close>

definition plain_lib :: pylib where
  "plain_lib = \<lparr>str_title = (\<lambda>s. s), strftime = (\<lambda>d f. f), urlencode = (\<lambda>ps. concat (map snd ps))\<rparr>"

section \<open>The store and the cache\<close>

lemma fold_max_ge: "a \<le> fold max xs (a::int) \<and> (\<forall>x\<in>set xs. x \<le> fold max xs a)"
proof (induction xs arbitrary: a)
  case Nil
  show ?case by simp
next
  case (Cons y ys)
  have "max y a \<le> fold max ys (max y a)" and "\<forall>x\<in>set ys. x \<le> fold max ys (max y a)"
    using Cons.IH [of "max y a"] by simp_all
  then show ?case by auto
qed

lemma next_id_fresh: "r \<in> set rows \<Longrightarrow> id_t r < next_id rows"
  using fold_max_ge [of 0 "map id_t rows"] by (fastforce simp: next_id_def)

lemma dict_set_fresh: "k \<notin> fst ` set d \<Longrightarrow> dict_set d k v = d @ [(k, v)]"
  by (induction d) auto

lemma map_of_dict_set: "map_of (dict_set d k v) = (map_of d)(k \<mapsto> v)"
  by (induction d) (auto simp: fun_eq_iff)

lemma keys_dict_set: "fst ` set (dict_set d k v) = insert k (fst ` set d)"
  by (induction d) auto

lemma foldl_dict_set_distinct:
  "distinct (map fst acc @ map id_t ts) \<Longrightarrow>
   foldl (\<lambda>acc t. dict_set acc (id_t t) (Some t)) acc ts = acc @ map (\<lambda>t. (id_t t, Some t)) ts"
proof (induction ts arbitrary: acc)
  case Nil
  show ?case by simp
next
  case (Cons t ts)
  have fresh: "id_t t \<notin> fst ` set acc" using Cons.prems by auto
  have "distinct (map fst (acc @ [(id_t t, Some t)]) @ map id_t ts)"
    using Cons.prems by auto
  from Cons.IH [OF this] show ?case by (simp add: dict_set_fresh [OF fresh])
qed

lemma map_filter_from_row: "List.map_filter (\<lambda>t. t) (map (\<lambda>row. from_row (Some row)) xs) = xs"
  by (induction xs) (simp_all add: List.map_filter_simps from_row_def)

text \<open>With unique identifiers the dict is the list of rows in the order of their identifiers.\<close>

lemma load_all_todos_distinct:
  "distinct (map id_t (todo_rows d)) \<Longrightarrow>
   load_all_todos d = map (\<lambda>t. (id_t t, Some t)) (sort_key id_t (todo_rows d))"
proof -
  assume "distinct (map id_t (todo_rows d))"
  then have "distinct (map id_t (sort_key id_t (todo_rows d)))"
    by (metis distinct_map distinct_sort set_sort)
  then show ?thesis
    using foldl_dict_set_distinct [of "[]" "sort_key id_t (todo_rows d)"]
    by (simp add: load_all_todos_def map_filter_from_row)
qed

lemma keys_foldl_dict_set:
  "fst ` set (foldl (\<lambda>acc t. dict_set acc (id_t t) (Some t)) acc ts) = fst ` set acc \<union> id_t ` set ts"
  by (induction ts arbitrary: acc) (auto simp: keys_dict_set)

lemma keys_load_all_todos: "fst ` set (load_all_todos d) = id_t ` set (todo_rows d)"
  by (simp add: load_all_todos_def map_filter_from_row keys_foldl_dict_set)

lemma insort_key_last:
  "\<forall>y\<in>set xs. f y \<le> f x \<Longrightarrow> f z < f x \<Longrightarrow> insort_key f z (xs @ [x]) = insort_key f z xs @ [x]"
  by (induction xs) auto

lemma sort_key_snoc_max:
  "\<forall>y\<in>set xs. f y < f x \<Longrightarrow> sort_key f (xs @ [x]) = sort_key f xs @ [x]"
proof (induction xs)
  case Nil
  show ?case by simp
next
  case (Cons z zs)
  then have IH: "sort_key f (zs @ [x]) = sort_key f zs @ [x]" by simp
  have "\<forall>y\<in>set (sort_key f zs). f y \<le> f x" using Cons.prems by auto
  moreover have "f z < f x" using Cons.prems by simp
  ultimately show ?case using IH by (simp add: insort_key_last)
qed

lemma insort_key_map_same:
  "(\<And>y. f (h y) = f y) \<Longrightarrow> insort_key f (h x) (map h xs) = map h (insort_key f x xs)"
  by (induction xs) auto

lemma sort_key_map_same:
  "(\<And>y. f (h y) = f y) \<Longrightarrow> sort_key f (map h xs) = map h (sort_key f xs)"
  by (induction xs) (simp_all add: insort_key_map_same)

lemma map_id_rowwise:
  "(\<And>r. id_t (g r) = id_t r) \<Longrightarrow>
   map id_t (map (\<lambda>r. if P r then g r else r) xs) = map id_t xs"
  by (induction xs) simp_all

lemma find_distinct_id:
  "distinct (map id_t rows) \<Longrightarrow> c \<in> set rows \<Longrightarrow> find (\<lambda>r. id_t r = id_t c) rows = Some c"
  by (induction rows) (auto simp: rev_image_eqI)

lemma dict_set_entries:
  assumes same_id: "\<And>r. id_t (g r) = id_t r" and "distinct (map id_t S)" "c \<in> set S"
  shows "dict_set (map (\<lambda>t. (id_t t, Some t)) S) (id_t c) (Some (g c)) =
         map (\<lambda>t. (id_t t, Some t)) (map (\<lambda>r. if id_t r = id_t c then g r else r) S)"
  using assms(2,3)
proof (induction S)
  case Nil
  then show ?case by simp
next
  case (Cons s S)
  show ?case
  proof (cases "s = c")
    case True
    have "\<forall>r\<in>set S. id_t r \<noteq> id_t c" using Cons.prems True by (fastforce simp: image_iff)
    then have "map (\<lambda>r. if id_t r = id_t c then g r else r) S = S"
      by (simp add: map_idI)
    then show ?thesis using True same_id by simp
  next
    case False
    then have "c \<in> set S" using Cons.prems by simp
    moreover have "id_t s \<noteq> id_t c" using Cons.prems \<open>c \<in> set S\<close> by auto
    ultimately show ?thesis using Cons same_id by simp
  qed
qed

text \<open>
  A statement that rewrites the rows of one identifier and keeps their identifiers:
  \<^verbatim>\<open>load_todo\<close> then returns the rewritten row, and assigning it to the cache gives
  what \<^verbatim>\<open>load_all_todos\<close> would return.
\<close>

lemma load_todo_rowwise:
  assumes "distinct (map id_t (todo_rows d))" "c \<in> set (todo_rows d)" "\<And>r. id_t (g r) = id_t r"
    "todo_rows d' = map (\<lambda>r. if id_t r = id_t c then g r else r) (todo_rows d)"
  shows "load_todo d' (id_t c) = Some (g c)"
proof -
  let ?h = "\<lambda>r. if id_t r = id_t c then g r else r"
  have "map id_t (todo_rows d') = map id_t (todo_rows d)"
    unfolding assms(4) using assms(3) by (rule map_id_rowwise)
  then have "distinct (map id_t (todo_rows d'))" using assms(1) by (simp only:)
  moreover have "?h c \<in> set (todo_rows d')" using assms(2,4) by force
  ultimately have "find (\<lambda>r. id_t r = id_t (?h c)) (todo_rows d') = Some (?h c)"
    by (rule find_distinct_id)
  then show ?thesis using assms(3) by (simp add: load_todo_def from_row_def)
qed

lemma sync_rowwise:
  assumes "distinct (map id_t (todo_rows d))" "c \<in> set (todo_rows d)" "\<And>r. id_t (g r) = id_t r"
    "todo_rows d' = map (\<lambda>r. if id_t r = id_t c then g r else r) (todo_rows d)"
  shows "dict_set (load_all_todos d) (id_t c) (load_todo d' (id_t c)) = load_all_todos d'"
    and "distinct (map id_t (todo_rows d'))"
proof -
  let ?h = "\<lambda>r. if id_t r = id_t c then g r else r"
  have idh: "\<And>r. id_t (?h r) = id_t r" using assms(3) by simp
  have "map id_t (todo_rows d') = map id_t (todo_rows d)"
    unfolding assms(4) using assms(3) by (rule map_id_rowwise)
  then show dist': "distinct (map id_t (todo_rows d'))" using assms(1) by (simp only:)
  have S: "distinct (map id_t (sort_key id_t (todo_rows d)))"
    by (metis assms(1) distinct_map distinct_sort set_sort)
  have cS: "c \<in> set (sort_key id_t (todo_rows d))" using assms(2) by simp
  have "load_all_todos d' = map (\<lambda>t. (id_t t, Some t)) (map ?h (sort_key id_t (todo_rows d)))"
    using sort_key_map_same [of id_t ?h "todo_rows d"] idh
    by (simp add: load_all_todos_distinct [OF dist'] assms(4))
  also have "\<dots> = dict_set (map (\<lambda>t. (id_t t, Some t)) (sort_key id_t (todo_rows d))) (id_t c) (Some (g c))"
    using dict_set_entries [OF assms(3) S cS] by simp
  finally show "dict_set (load_all_todos d) (id_t c) (load_todo d' (id_t c)) = load_all_todos d'"
    by (simp add: load_all_todos_distinct [OF assms(1)] load_todo_rowwise [OF assms])
qed

lemma cached_is_row:
  assumes "cache_in_sync w" "map_of (todos_data (session w)) i = Some v"
  shows "\<exists>c. v = Some c \<and> c \<in> set (todo_rows (db w)) \<and> id_t c = i"
proof -
  have "(i, v) \<in> set (map (\<lambda>t. (id_t t, Some t)) (sort_key id_t (todo_rows (db w))))"
    using assms by (auto simp: cache_in_sync_def load_all_todos_distinct dest: map_of_SomeD)
  then show ?thesis by auto
qed

lemma sample_world_in_sync: "cache_in_sync sample_world"
  by (simp add: cache_in_sync_def sample_world_def sample_db_def load_all_todos_def
      from_row_def List.map_filter_simps report_todo_def)

section \<open>Creating a task\<close>

lemma create_submitted:
  assumes "in_title i \<noteq> []" and "insert_accepted (db w) (submitted_data today i)"
  shows "create_todo_callback today (w\<lparr>session := new_todo_form i (session w)\<rparr>) =
     (None, w\<lparr>db := insert_row (db w) (submitted_data today i),
               session := (new_todo_form i (session w))
                 \<lparr>todos_data := load_all_todos (insert_row (db w) (submitted_data today i))\<rparr>\<rparr>)"
proof -
  have "exec_insert (db w) (submitted_data today i) = Inr (insert_row (db w) (submitted_data today i))"
    using assms(2) by (simp add: exec_insert_def)
  then show ?thesis
    using assms(1)
    by (simp add: create_todo_callback_def new_todo_form_def falsy_def str_of_def
        submitted_data_def Let_def)
qed

lemma create_refused:
  assumes "in_title i \<noteq> []" and "\<not> insert_accepted (db w) (submitted_data today i)"
  shows "create_todo_callback today (w\<lparr>session := new_todo_form i (session w)\<rparr>) =
     (Some DataError, w\<lparr>session := new_todo_form i (session w)\<rparr>)"
proof -
  have "exec_insert (db w) (submitted_data today i) = Inl DataError"
    using assms(2) by (simp add: exec_insert_def)
  then show ?thesis
    using assms(1)
    by (simp add: create_todo_callback_def new_todo_form_def falsy_def str_of_def
        submitted_data_def Let_def)
qed

lemma load_all_insert:
  shows "todo_rows (insert_row d (submitted_data today i)) =
           todo_rows d @ [submitted_row (next_id (todo_rows d)) today i]"
    and "load_all_todos (insert_row d (submitted_data today i)) =
           load_all_todos d @
             [(next_id (todo_rows d), Some (submitted_row (next_id (todo_rows d)) today i))]"
    and "distinct (map id_t (todo_rows d)) \<Longrightarrow>
           distinct (map id_t (todo_rows (insert_row d (submitted_data today i))))"
proof -
  let ?new = "submitted_row (next_id (todo_rows d)) today i"
  let ?step = "\<lambda>acc t. dict_set acc (id_t t) (Some t)"
  show rows: "todo_rows (insert_row d (submitted_data today i)) = todo_rows d @ [?new]"
    by (simp add: insert_row_def submitted_data_def submitted_row_def)
  have id_new: "id_t ?new = next_id (todo_rows d)" by (simp add: submitted_row_def)
  have less: "\<forall>r\<in>set (todo_rows d). id_t r < id_t ?new"
    by (simp add: next_id_fresh id_new)
  then have fresh: "id_t ?new \<notin> id_t ` set (todo_rows d)" by fastforce
  show "distinct (map id_t (todo_rows d)) \<Longrightarrow>
          distinct (map id_t (todo_rows (insert_row d (submitted_data today i))))"
    using fresh by (simp add: rows)
  have sorted_rows: "sort_key id_t (todo_rows d @ [?new]) = sort_key id_t (todo_rows d) @ [?new]"
    using less by (rule sort_key_snoc_max)
  have "id_t ?new \<notin> fst ` set (foldl ?step [] (sort_key id_t (todo_rows d)))"
    using fresh by (simp add: keys_foldl_dict_set)
  then have snoc: "dict_set (foldl ?step [] (sort_key id_t (todo_rows d))) (id_t ?new) (Some ?new) =
             foldl ?step [] (sort_key id_t (todo_rows d)) @ [(id_t ?new, Some ?new)]"
    by (rule dict_set_fresh)
  have old: "load_all_todos d = foldl ?step [] (sort_key id_t (todo_rows d))"
    unfolding load_all_todos_def Let_def by (simp only: map_filter_from_row)
  have "load_all_todos (insert_row d (submitted_data today i)) =
        foldl ?step [] (sort_key id_t (todo_rows d) @ [?new])"
    unfolding load_all_todos_def Let_def rows sorted_rows by (simp only: map_filter_from_row)
  also have "\<dots> = dict_set (foldl ?step [] (sort_key id_t (todo_rows d))) (id_t ?new) (Some ?new)"
    by simp
  finally show "load_all_todos (insert_row d (submitted_data today i)) =
           load_all_todos d @ [(next_id (todo_rows d), Some ?new)]"
    using snoc by (simp add: old id_new)
qed

text \<open>
  C2, as stated, fails in two ways. When the cache is behind the store (here another
  session has inserted task 2 since the cache was loaded), the callback reloads the
  whole cache and its size grows by two, not by one. When the store enforces the
  declared column lengths and the submitted title has more than 30 characters (the
  form sets no limit), the \<^verbatim>\<open>INSERT\<close> raises: no row is inserted and the cache is left
  as it was.
\<close>

theorem create_not_always_one_entry:
  "length (todos_data (session (snd (create_todo_callback (2024, 6, 2)
       (stale_world\<lparr>session := new_todo_form milk_inputs (session stale_world)\<rparr>))))) =
     length (todos_data (session stale_world)) + 2 \<and>
   in_title long_title_inputs \<noteq> [] \<and>
   create_todo_callback (2024, 6, 2)
       (sample_world\<lparr>session := new_todo_form long_title_inputs (session sample_world)\<rparr>) =
     (Some DataError,
      sample_world\<lparr>session := new_todo_form long_title_inputs (session sample_world)\<rparr>)"
proof -
  have t: "in_title milk_inputs \<noteq> []" and t': "in_title long_title_inputs \<noteq> []"
    by (simp_all add: milk_inputs_def long_title_inputs_def)
  have a: "insert_accepted (db stale_world) (submitted_data (2024, 6, 2) milk_inputs)"
    by (simp add: insert_accepted_def submitted_data_def milk_inputs_def fits_def)
  have r: "\<not> insert_accepted (db sample_world) (submitted_data (2024, 6, 2) long_title_inputs)"
    by (simp add: insert_accepted_def submitted_data_def long_title_inputs_def milk_inputs_def
        sample_world_def sample_db_def)
  have l: "load_all_todos (db stale_world) = [(1, Some report_todo), (2, Some unlabelled_todo)]"
    by (simp add: load_all_todos_def stale_world_def sample_world_def sample_db_def from_row_def
        List.map_filter_simps report_todo_def unlabelled_todo_def)
  have c: "todos_data (session stale_world) = [(1, Some report_todo)]"
    by (simp add: stale_world_def sample_world_def)
  show ?thesis
    by (simp add: create_submitted [OF t a] create_refused [OF t' r] load_all_insert l c t')
qed

text \<open>
  C2, amended. For every submitted form with a non-empty title whose values the store
  accepts (the store does not enforce the declared column lengths, or the title has
  at most 30, the label 20, the priority 10, the status 20 and the requester 50
  characters), \<^verbatim>\<open>create_todo_callback\<close> returns normally and executes exactly one
  write, an \<^verbatim>\<open>INSERT\<close> of the submitted values, which adds one row. The cache
  afterwards is what the store held before the call, followed by one new entry; the
  new entry has the submitted title, description, requester, label, priority, status
  and due date, \<^verbatim>\<open>done = False\<close> and the current date as its created date (this is
  \<open>submitted_row\<close>). When the cache held what the store held before the call, the
  cache afterwards is the old cache followed by the new entry, so its size has
  increased by exactly one; and a cache that mirrors a store with unique identifiers
  still does so afterwards.
\<close>

theorem create_adds_one_entry:
  assumes "in_title i \<noteq> []" and "insert_accepted (db w) (submitted_data today i)"
  shows "let r = create_todo_callback today (w\<lparr>session := new_todo_form i (session w)\<rparr>);
             new = submitted_row (next_id (todo_rows (db w))) today i
         in fst r = None \<and>
            todo_rows (db (snd r)) = todo_rows (db w) @ [new] \<and>
            writes (db (snd r)) = writes (db w) @ [Insert_todo (submitted_data today i)] \<and>
            todos_data (session (snd r)) = load_all_todos (db w) @ [(id_t new, Some new)] \<and>
            map_of (todos_data (session (snd r))) (id_t new) = Some (Some new) \<and>
            (todos_data (session w) = load_all_todos (db w) \<longrightarrow>
               id_t new \<notin> fst ` set (todos_data (session w)) \<and>
               todos_data (session (snd r)) = todos_data (session w) @ [(id_t new, Some new)] \<and>
               length (todos_data (session (snd r))) = length (todos_data (session w)) + 1) \<and>
            (cache_in_sync w \<longrightarrow> cache_in_sync (snd r))"
proof -
  let ?new = "submitted_row (next_id (todo_rows (db w))) today i"
  have id_new: "id_t ?new = next_id (todo_rows (db w))" by (simp add: submitted_row_def)
  have "next_id (todo_rows (db w)) \<notin> id_t ` set (todo_rows (db w))"
    using next_id_fresh [of _ "todo_rows (db w)"] by fastforce
  then have fresh: "next_id (todo_rows (db w)) \<notin> fst ` set (load_all_todos (db w))"
    by (simp add: keys_load_all_todos)
  then have none: "map_of (load_all_todos (db w)) (next_id (todo_rows (db w))) = None"
    by (simp add: map_of_eq_None_iff)
  have w: "writes (insert_row (db w) v) = writes (db w) @ [Insert_todo v]" for v
    by (simp add: insert_row_def)
  have sync: "cache_in_sync w \<Longrightarrow>
      distinct (map id_t (todo_rows (insert_row (db w) (submitted_data today i))))"
    by (simp add: cache_in_sync_def load_all_insert(3))
  show ?thesis
    unfolding Let_def create_submitted [OF assms] fst_conv snd_conv
    using fresh none sync
    by (simp add: load_all_insert(1,2) w id_new cache_in_sync_def map_add_def)
qed

theorem create_adds_one_entry_witness:
  "in_title milk_inputs \<noteq> [] \<and>
   insert_accepted (db sample_world) (submitted_data (2024, 6, 2) milk_inputs) \<and>
   todos_data (session sample_world) = load_all_todos (db sample_world) \<and>
   cache_in_sync sample_world \<and>
   (let r = create_todo_callback (2024, 6, 2)
              (sample_world\<lparr>session := new_todo_form milk_inputs (session sample_world)\<rparr>)
    in fst r = None \<and>
       todos_data (session (snd r)) =
         [(1, Some report_todo), (2, Some (submitted_row 2 (2024, 6, 2) milk_inputs))] \<and>
       length (todos_data (session (snd r))) = length (todos_data (session sample_world)) + 1 \<and>
       cache_in_sync (snd r))"
proof -
  have s: "cache_in_sync sample_world" by (rule sample_world_in_sync)
  then have c: "todos_data (session sample_world) = load_all_todos (db sample_world)"
    by (simp add: cache_in_sync_def)
  have t: "in_title milk_inputs \<noteq> []" by (simp add: milk_inputs_def)
  have a: "insert_accepted (db sample_world) (submitted_data (2024, 6, 2) milk_inputs)"
    by (simp add: insert_accepted_def submitted_data_def milk_inputs_def fits_def)
  have n: "next_id (todo_rows (db sample_world)) = 2"
    by (simp add: next_id_def sample_world_def sample_db_def report_todo_def)
  have l: "todos_data (session sample_world) = [(1, Some report_todo)]"
    by (simp add: sample_world_def)
  show ?thesis
    using create_adds_one_entry [OF t a] t a c s
    by (simp add: Let_def n submitted_row_def l)
qed

section \<open>Validation\<close>

text \<open>
  C4. A create or update submission whose title is empty (or \<^verbatim>\<open>None\<close>) aborts before
  any write. \<^verbatim>\<open>create_todo_callback\<close> returns normally, having only shown its
  notification, and \<^verbatim>\<open>update_todo_callback\<close> likewise ends (whether by its
  notification or, when a form key is missing, by the \<^verbatim>\<open>KeyError\<close> raised while it
  reads the form) with the store, including the list of executed writes, and the
  cache exactly as they were.
\<close>

theorem empty_title_aborts_before_write:
  "(text_widgets (session w) (New_todo_form ''title'') = Some t \<and> falsy t \<longrightarrow>
      create_todo_callback today w =
        (None, w\<lparr>toasts := toasts w @ [''Title empty, not adding todo'']\<rparr>) \<and>
      db (snd (create_todo_callback today w)) = db w \<and>
      todos_data (session (snd (create_todo_callback today w))) = todos_data (session w)) \<and>
   (text_widgets (session w) (Edit_todo_form i ''title'') = Some t' \<and> falsy t' \<longrightarrow>
      db (snd (update_todo_callback w i)) = db w \<and>
      todos_data (session (snd (update_todo_callback w i))) = todos_data (session w))"
  by (simp add: create_todo_callback_def update_todo_callback_def Let_def
      split: option.splits prod.splits bind_splits)

theorem empty_title_aborts_before_write_witness:
  "create_todo_callback (2024, 6, 2) blank_title_world =
     (None, blank_title_world\<lparr>toasts := [''Title empty, not adding todo'']\<rparr>) \<and>
   fst (update_todo_callback blank_title_world 1) = None \<and>
   toasts (snd (update_todo_callback blank_title_world 1)) = [''Title cannot be empty.''] \<and>
   db (snd (update_todo_callback blank_title_world 1)) = sample_db \<and>
   todos_data (session (snd (update_todo_callback blank_title_world 1))) = [(1, Some report_todo)]"
proof -
  have n: "text_widgets (session blank_title_world) (New_todo_form ''title'') = Some (Some [])"
    and e: "text_widgets (session blank_title_world) (Edit_todo_form 1 ''title'') = Some (Some [])"
    by (simp_all add: blank_title_world_def sample_world_def)
  have f: "falsy (Some [])" by (simp add: falsy_def)
  have u: "fst (update_todo_callback blank_title_world 1) = None \<and>
           toasts (snd (update_todo_callback blank_title_world 1)) = [''Title cannot be empty.'']"
    by (simp add: update_todo_callback_def blank_title_world_def sample_world_def falsy_def)
  show ?thesis
    using empty_title_aborts_before_write
            [of blank_title_world "Some []" "(2024, 6, 2)" 1 "Some []"] n e f u
    by (simp add: blank_title_world_def sample_world_def)
qed

section \<open>Filtering\<close>

lemma filtered_todos_sound:
  "filtered_todos fl fp fs h vs = Inr r \<Longrightarrow> t \<in> set r \<Longrightarrow>
   keep_todo fl fp fs h t \<and> Some t \<in> set vs"
  by (induction fl fp fs h vs arbitrary: r rule: filtered_todos.induct)
     (auto split: sum.splits if_splits)

text \<open>
  C7. For every list of tasks and every choice of the selected labels, priorities
  and statuses and of the hide-done flag, the comprehension does not raise and
  yields, in their order, exactly the tasks whose label, priority and status are
  members of the respective selected lists and which, when the flag is set, are not
  done. This holds for all tasks, so in particular for those whose label, priority
  and status are drawn from the options of the filters.
\<close>

theorem filtered_todos_exact:
  "filtered_todos filter_label filter_priority filter_status hide_done (map Some ts) =
     Inr (filter (\<lambda>t. label t \<in> Some ` set filter_label \<and>
                       priority t \<in> Some ` set filter_priority \<and>
                       status t \<in> Some ` set filter_status \<and>
                       (hide_done \<longrightarrow> \<not> done_t t)) ts)"
proof -
  have "keep_todo filter_label filter_priority filter_status hide_done =
        (\<lambda>t. label t \<in> Some ` set filter_label \<and> priority t \<in> Some ` set filter_priority \<and>
              status t \<in> Some ` set filter_status \<and> (hide_done \<longrightarrow> \<not> done_t t))"
    by (auto simp: keep_todo_def in_list_def fun_eq_iff split: option.splits)
  moreover have "filtered_todos fl fp fs h (map Some ts) = Inr (filter (keep_todo fl fp fs h) ts)"
    for fl fp fs h
    by (induction ts) simp_all
  ultimately show ?thesis by simp
qed

theorem filtered_todos_exact_witness:
  "filtered_todos [''work''] priority_options status_options True
     (map Some [report_todo, done_todo, unlabelled_todo]) = Inr [report_todo]"
  using filtered_todos_exact
          [of "[''work'']" priority_options status_options True
              "[report_todo, done_todo, unlabelled_todo]"]
  by (simp add: report_todo_def done_todo_def unlabelled_todo_def priority_options_def
      status_options_def)

text \<open>
  C9. A task whose label, priority or status is \<^verbatim>\<open>None\<close> is never in the filtered
  list, whatever the selections are, even when every option of every filter is
  selected: \<^verbatim>\<open>None in selected\<close> is false for a list of strings.
\<close>

theorem absent_field_filtered_out:
  assumes "label t = None \<or> priority t = None \<or> status t = None"
    and "filtered_todos filter_label filter_priority filter_status hide_done vs = Inr r"
  shows "t \<notin> set r"
proof
  assume "t \<in> set r"
  with assms(2) have "keep_todo filter_label filter_priority filter_status hide_done t"
    by (simp add: filtered_todos_sound)
  with assms(1) show False by (auto simp: keep_todo_def in_list_def)
qed

theorem absent_field_filtered_out_witness:
  "label unlabelled_todo = None \<and>
   filtered_todos label_options priority_options status_options False
     [Some report_todo, Some unlabelled_todo] = Inr [report_todo] \<and>
   unlabelled_todo \<notin> set [report_todo]"
proof -
  have l: "label unlabelled_todo = None \<or> priority unlabelled_todo = None \<or>
           status unlabelled_todo = None"
    by (simp add: unlabelled_todo_def)
  have f: "filtered_todos label_options priority_options status_options False
             [Some report_todo, Some unlabelled_todo] = Inr [report_todo]"
    by (simp add: keep_todo_def in_list_def report_todo_def unlabelled_todo_def
        label_options_def priority_options_def status_options_def)
  show ?thesis
    using absent_field_filtered_out [OF l f] f by (simp add: unlabelled_todo_def)
qed

section \<open>Rendering a card\<close>

text \<open>
  C10. Rendering the card of a task whose due date is \<^verbatim>\<open>None\<close> fails: \<^verbatim>\<open>todo_card\<close>
  raises \<^verbatim>\<open>AttributeError\<close> at the \<^verbatim>\<open>strftime\<close> of the due-date caption, and the call
  of \<^verbatim>\<open>generate_gcal_link\<close> that follows it, with the same missing due date, raises
  as well; neither place has a guard.
\<close>

theorem card_of_undated_todo_fails:
  assumes "due_at t = None"
  shows "todo_card L t = Inl AttributeError \<and>
         generate_gcal_link L (title t) (description t) (due_at t) = Inl AttributeError"
  using assms by (simp add: todo_card_def generate_gcal_link_def Let_def)

theorem card_of_undated_todo_fails_witness:
  "due_at undated_todo = None \<and>
   todo_card plain_lib undated_todo = Inl AttributeError \<and>
   generate_gcal_link plain_lib ''Some day'' (Some ''Quarterly figures'') None =
     Inl AttributeError \<and>
   (\<exists>card. todo_card plain_lib report_todo = Inr card)"
proof -
  have d: "due_at undated_todo = None" by (simp add: undated_todo_def)
  have c: "\<exists>card. todo_card plain_lib report_todo = Inr card"
    by (simp add: todo_card_def generate_gcal_link_def Let_def report_todo_def)
  show ?thesis
    using card_of_undated_todo_fails [OF d, of plain_lib] d c
    by (simp add: undated_todo_def report_todo_def)
qed

section \<open>Sorting\<close>

lemma all_before_append:
  "all_before A B (xs @ ys) \<longleftrightarrow>
     all_before A B xs \<and> all_before A B ys \<and> (\<forall>x\<in>set xs. \<forall>y\<in>set ys. \<not> (B x \<and> A y))"
  by (induction xs) (auto simp: list_all_iff)

lemma sorted_all_before:
  assumes "sorted (map k xs)" and "\<And>x y. A x \<Longrightarrow> B y \<Longrightarrow> k x < (k y :: 'b :: linorder)"
  shows "all_before A B xs"
  using assms(1)
proof (induction xs)
  case Nil
  show ?case by simp
next
  case (Cons x xs)
  have "\<not> A y" if "B x" "y \<in> set xs" for y
  proof
    assume "A y"
    then have "k y < k x" using that(1) by (rule assms(2))
    moreover have "k x \<le> k y" using Cons.prems that(2) by simp
    ultimately show False by simp
  qed
  then show ?case using Cons by (simp add: list_all_iff)
qed

lemma sorted_all_before_rev:
  assumes "sorted (map k xs)" and "\<And>x y. A x \<Longrightarrow> B y \<Longrightarrow> k x < (k y :: 'b :: linorder)"
  shows "all_before B A (rev xs)"
  using assms(1)
proof (induction xs)
  case Nil
  show ?case by simp
next
  case (Cons x xs)
  have "\<not> (A y \<and> B x)" if "y \<in> set xs" for y
  proof
    assume "A y \<and> B x"
    then have "k y < k x" using assms(2) by simp
    moreover have "k x \<le> k y" using Cons.prems that by simp
    ultimately show False by simp
  qed
  then show ?case using Cons by (simp add: all_before_append)
qed

lemma sort_value_due:
  "due_before_max x \<Longrightarrow> no_due y \<Longrightarrow> sort_value Due_at x < sort_value Due_at y"
  by (auto simp: due_before_max_def no_due_def sort_value_def split: option.splits)

text \<open>
  C8, as stated, fails: a task without a due date is sorted under the key
  \<^verbatim>\<open>date.max\<close>, the same key as a task that is due on 9999-12-31, and the stable
  sort keeps two such tasks in their input order. Ascending, the undated task below
  stays before the dated one; descending, it stays after it.
\<close>

theorem undated_not_after_last_day:
  "\<not> all_before has_due no_due (sort_todos Due_at ''Ascending'' [undated_todo, last_day_todo]) \<and>
   \<not> all_before no_due has_due (sort_todos Due_at ''Descending'' [last_day_todo, undated_todo])"
  by (simp add: sort_todos_def sort_value_def undated_todo_def last_day_todo_def report_todo_def
      has_due_def no_due_def date_max_def)

text \<open>
  C8, amended. For every list of tasks, sorting by due date in ascending order places
  every task with no due date after all tasks whose due date is earlier than
  \<^verbatim>\<open>date.max\<close>, and sorting in descending order places every task with no due date
  before all of them; a task due on \<^verbatim>\<open>date.max\<close> itself has the same sort key as an
  undated task, and the two keep their input order. In full: either result is a
  rearrangement of the input, ordered by the key (ascending or descending), in which
  the tasks of any one key stand in their input order.
\<close>

theorem undated_after_earlier_dates:
  "mset (sort_todos Due_at ''Ascending'' ts) = mset ts \<and>
   sorted (map (sort_value Due_at) (sort_todos Due_at ''Ascending'' ts)) \<and>
   all_before due_before_max no_due (sort_todos Due_at ''Ascending'' ts) \<and>
   mset (sort_todos Due_at ''Descending'' ts) = mset ts \<and>
   sorted (rev (map (sort_value Due_at) (sort_todos Due_at ''Descending'' ts))) \<and>
   all_before no_due due_before_max (sort_todos Due_at ''Descending'' ts) \<and>
   (\<forall>k. filter (\<lambda>t. sort_value Due_at t = k) (sort_todos Due_at ''Ascending'' ts) =
          filter (\<lambda>t. sort_value Due_at t = k) ts \<and>
        filter (\<lambda>t. sort_value Due_at t = k) (sort_todos Due_at ''Descending'' ts) =
          filter (\<lambda>t. sort_value Due_at t = k) ts)"
proof -
  let ?k = "sort_value Due_at"
  have asc: "sort_todos Due_at ''Ascending'' ts = sort_key ?k ts"
    and desc: "sort_todos Due_at ''Descending'' ts = rev (sort_key ?k (rev ts))"
    by (simp_all add: sort_todos_def)
  have 1: "mset (sort_key ?k ts) = mset ts" and 4: "mset (rev (sort_key ?k (rev ts))) = mset ts"
    by simp_all
  have 2: "sorted (map ?k (sort_key ?k ts))" by (rule sorted_sort_key)
  have 3: "all_before due_before_max no_due (sort_key ?k ts)"
    using 2 sort_value_due by (rule sorted_all_before)
  have s: "sorted (map ?k (sort_key ?k (rev ts)))" by (rule sorted_sort_key)
  then have 5: "sorted (rev (map ?k (rev (sort_key ?k (rev ts)))))" by (simp add: rev_map)
  have 6: "all_before no_due due_before_max (rev (sort_key ?k (rev ts)))"
    using s sort_value_due by (rule sorted_all_before_rev)
  have 7: "filter (\<lambda>t. ?k t = k) (sort_key ?k ts) = filter (\<lambda>t. ?k t = k) ts" for k
    by (rule sort_key_stable)
  have 8: "filter (\<lambda>t. ?k t = k) (rev (sort_key ?k (rev ts))) = filter (\<lambda>t. ?k t = k) ts"
    for k
  proof -
    have "filter (\<lambda>t. ?k t = k) (rev (sort_key ?k (rev ts))) =
          rev (filter (\<lambda>t. ?k t = k) (sort_key ?k (rev ts)))"
      by (simp only: rev_filter)
    also have "\<dots> = rev (filter (\<lambda>t. ?k t = k) (rev ts))"
      by (simp only: sort_key_stable)
    also have "\<dots> = filter (\<lambda>t. ?k t = k) ts"
      by (simp only: rev_filter rev_rev_ident)
    finally show ?thesis .
  qed
  show ?thesis
    unfolding asc desc by (intro conjI allI) (fact 1 2 3 4 5 6 7 8)+
qed

theorem undated_after_earlier_dates_witness:
  "sort_todos Due_at ''Ascending'' [undated_todo, last_day_todo, report_todo] =
     [report_todo, undated_todo, last_day_todo] \<and>
   all_before due_before_max no_due [report_todo, undated_todo, last_day_todo] \<and>
   sort_todos Due_at ''Descending'' [undated_todo, last_day_todo, report_todo] =
     [undated_todo, last_day_todo, report_todo] \<and>
   all_before no_due due_before_max [undated_todo, last_day_todo, report_todo] \<and>
   filter (\<lambda>t. sort_value Due_at t = date_max) [report_todo, undated_todo, last_day_todo] =
     [undated_todo, last_day_todo]"
proof -
  have a: "sort_todos Due_at ''Ascending'' [undated_todo, last_day_todo, report_todo] =
             [report_todo, undated_todo, last_day_todo]"
    by (simp add: sort_todos_def sort_value_def undated_todo_def last_day_todo_def
        report_todo_def date_max_def)
  have d: "sort_todos Due_at ''Descending'' [undated_todo, last_day_todo, report_todo] =
             [undated_todo, last_day_todo, report_todo]"
    by (simp add: sort_todos_def sort_value_def undated_todo_def last_day_todo_def
        report_todo_def date_max_def)
  have f: "filter (\<lambda>t. sort_value Due_at t = date_max) [undated_todo, last_day_todo, report_todo] =
             [undated_todo, last_day_todo]"
    by (simp add: sort_value_def undated_todo_def last_day_todo_def report_todo_def date_max_def)
  have "all_before due_before_max no_due [report_todo, undated_todo, last_day_todo] \<and>
        all_before no_due due_before_max [undated_todo, last_day_todo, report_todo] \<and>
        filter (\<lambda>t. sort_value Due_at t = date_max) [report_todo, undated_todo, last_day_todo] =
          filter (\<lambda>t. sort_value Due_at t = date_max) [undated_todo, last_day_todo, report_todo]"
    using undated_after_earlier_dates [of "[undated_todo, last_day_todo, report_todo]", unfolded a d]
    by blast
  then show ?thesis
    using a d f by (simp only: simp_thms)
qed

section \<open>Toggling the done flag\<close>












section \<open>Deleting a task\<close>

lemma length_filter_other:
  "distinct (map f xs) \<Longrightarrow> x \<in> set xs \<Longrightarrow> length (filter (\<lambda>y. f y \<noteq> f x) xs) + 1 = length xs"
proof (induction xs)
  case Nil
  then show ?case by simp
next
  case (Cons z zs)
  show ?case
  proof (cases "z = x")
    case True
    have "\<forall>y\<in>set zs. f y \<noteq> f x" using Cons.prems(1) True by (fastforce simp: image_iff)
    then have "filter (\<lambda>y. f y \<noteq> f x) zs = zs" by (simp add: filter_id_conv)
    then show ?thesis using True by simp
  next
    case False
    then have "x \<in> set zs" using Cons.prems(2) by simp
    moreover have "f z \<noteq> f x" using Cons.prems(1) \<open>x \<in> set zs\<close> by auto
    ultimately show ?thesis using Cons by simp
  qed
qed

lemma filter_dict_set:
  "filter (\<lambda>e. fst e \<noteq> i) (dict_set d k v) =
     (if k = i then filter (\<lambda>e. fst e \<noteq> i) d else dict_set (filter (\<lambda>e. fst e \<noteq> i) d) k v)"
  by (induction d) auto

lemma filter_foldl_dict_set:
  "filter (\<lambda>e. fst e \<noteq> i) (foldl (\<lambda>acc t. dict_set acc (id_t t) (Some t)) acc ts) =
   foldl (\<lambda>acc t. dict_set acc (id_t t) (Some t)) (filter (\<lambda>e. fst e \<noteq> i) acc)
     (filter (\<lambda>t. id_t t \<noteq> i) ts)"
  by (induction ts arbitrary: acc) (simp_all add: filter_dict_set)

lemma load_all_delete:
  shows "load_all_todos (exec_delete d i) = filter (\<lambda>e. fst e \<noteq> i) (load_all_todos d)"
    and "distinct (map id_t (todo_rows d)) \<Longrightarrow> distinct (map id_t (todo_rows (exec_delete d i)))"
proof -
  have rows: "todo_rows (exec_delete d i) = filter (\<lambda>r. id_t r \<noteq> i) (todo_rows d)"
    by (simp add: exec_delete_def)
  show "distinct (map id_t (todo_rows d)) \<Longrightarrow> distinct (map id_t (todo_rows (exec_delete d i)))"
    by (simp add: rows distinct_map_filter)
  have "sort_key id_t (filter (\<lambda>r. id_t r \<noteq> i) (todo_rows d)) =
        filter (\<lambda>r. id_t r \<noteq> i) (sort_key id_t (todo_rows d))"
    by (simp add: filter_sort)
  then show "load_all_todos (exec_delete d i) = filter (\<lambda>e. fst e \<noteq> i) (load_all_todos d)"
    by (simp add: load_all_todos_def map_filter_from_row rows filter_foldl_dict_set)
qed

text \<open>
  C5, as stated, fails for the cache: the callback does not remove an entry from the
  cache, it reloads the whole cache. When the cache is behind the store (another
  session has inserted task 2), deleting task 1 leaves a cache that holds task 2,
  which is not the old cache without the entry of task 1: the cache has as many
  entries as before.
\<close>

theorem delete_reloads_stale_cache:
  "1 \<in> id_t ` set (todo_rows (db stale_world)) \<and>
   todos_data (session stale_world) = [(1, Some report_todo)] \<and>
   todos_data (session (snd (delete_todo_callback stale_world 1))) = [(2, Some unlabelled_todo)] \<and>
   filter (\<lambda>e. fst e \<noteq> 1) (todos_data (session stale_world)) = [] \<and>
   length (todos_data (session (snd (delete_todo_callback stale_world 1)))) =
     length (todos_data (session stale_world))"
  by (simp add: delete_todo_callback_def exec_delete_def load_all_todos_def stale_world_def
      sample_world_def sample_db_def from_row_def List.map_filter_simps report_todo_def
      unlabelled_todo_def Let_def)

text \<open>
  C5, amended. For every task identifier, \<^verbatim>\<open>delete_todo_callback\<close> executes one
  \<^verbatim>\<open>DELETE\<close>, which removes exactly the rows of that identifier, and does not modify
  the subtask relation: \<^verbatim>\<open>load_subtasks\<close> returns for every task, the deleted one
  included, what it returned before, so the subtasks of the deleted task persist as
  orphans. The cache is reloaded from the store, so the identifier is no longer in
  it. When the cache held what the store held before the call, the cache loses
  exactly the entry of that identifier; and when the cache mirrored a store with
  unique identifiers, among them the deleted one, the relation and the cache are each
  one element shorter and the cache still mirrors the store.
\<close>

theorem delete_keeps_subtasks:
  "let r = delete_todo_callback w i in
     fst r = None \<and>
     writes (db (snd r)) = writes (db w) @ [Delete_todo i] \<and>
     todo_rows (db (snd r)) = filter (\<lambda>t. id_t t \<noteq> i) (todo_rows (db w)) \<and>
     subtask_rows (db (snd r)) = subtask_rows (db w) \<and>
     (\<forall>k. load_subtasks (db (snd r)) k = load_subtasks (db w) k) \<and>
     todos_data (session (snd r)) = load_all_todos (db (snd r)) \<and>
     map_of (todos_data (session (snd r))) i = None \<and>
     (todos_data (session w) = load_all_todos (db w) \<longrightarrow>
        todos_data (session (snd r)) = filter (\<lambda>e. fst e \<noteq> i) (todos_data (session w))) \<and>
     (cache_in_sync w \<and> i \<in> id_t ` set (todo_rows (db w)) \<longrightarrow>
        length (todo_rows (db (snd r))) + 1 = length (todo_rows (db w)) \<and>
        length (todos_data (session (snd r))) + 1 = length (todos_data (session w)) \<and>
        cache_in_sync (snd r))"
proof -
  let ?d' = "exec_delete (db w) i"
  have r: "delete_todo_callback w i =
        (None, w\<lparr>db := ?d', session := (session w)\<lparr>todos_data := load_all_todos ?d',
             currently_editing := (currently_editing (session w))(i \<mapsto> False)\<rparr>\<rparr>)"
    by (simp add: delete_todo_callback_def Let_def)
  have rows: "todo_rows ?d' = filter (\<lambda>t. id_t t \<noteq> i) (todo_rows (db w))"
    and sub: "subtask_rows ?d' = subtask_rows (db w)"
    and wr: "writes ?d' = writes (db w) @ [Delete_todo i]"
    by (simp_all add: exec_delete_def)
  have "i \<notin> fst ` set (load_all_todos ?d')"
    by (auto simp: keys_load_all_todos rows)
  then have none: "map_of (load_all_todos ?d') i = None"
    by (simp add: map_of_eq_None_iff)
  have ls: "load_subtasks ?d' k = load_subtasks (db w) k" for k
    by (simp add: load_subtasks_def sub)
  have la: "load_all_todos ?d' = filter (\<lambda>e. fst e \<noteq> i) (load_all_todos (db w))"
    by (rule load_all_delete(1))
  have lens: "length (todo_rows ?d') + 1 = length (todo_rows (db w)) \<and>
              length (load_all_todos ?d') + 1 = length (todos_data (session w)) \<and>
              distinct (map id_t (todo_rows ?d'))"
    if sync: "cache_in_sync w" and mem: "i \<in> id_t ` set (todo_rows (db w))"
  proof -
    have d: "distinct (map id_t (todo_rows (db w)))"
      and cache: "todos_data (session w) = load_all_todos (db w)"
      using sync by (simp_all add: cache_in_sync_def)
    obtain c where c: "c \<in> set (todo_rows (db w))" and i: "id_t c = i" using mem by auto
    have len: "length (todo_rows ?d') + 1 = length (todo_rows (db w))"
      using length_filter_other [OF d c] by (simp add: rows i)
    have S: "distinct (map id_t (sort_key id_t (todo_rows (db w))))"
      by (metis d distinct_map distinct_sort set_sort)
    have "length (filter (\<lambda>t. id_t t \<noteq> id_t c) (sort_key id_t (todo_rows (db w)))) + 1 =
          length (sort_key id_t (todo_rows (db w)))"
      using S c by (intro length_filter_other) simp_all
    then have clen: "length (load_all_todos ?d') + 1 = length (load_all_todos (db w))"
      by (simp add: la load_all_todos_distinct [OF d] filter_map o_def i)
    show ?thesis using len clen load_all_delete(2) [OF d, of i] by (simp add: cache)
  qed
  show ?thesis
    unfolding Let_def r fst_conv snd_conv
    using rows sub wr none ls la lens
    by (simp add: cache_in_sync_def)
qed

theorem delete_keeps_subtasks_witness:
  "cache_in_sync sample_world \<and> 1 \<in> id_t ` set (todo_rows (db sample_world)) \<and>
   todo_rows (db (snd (delete_todo_callback sample_world 1))) = [] \<and>
   todos_data (session (snd (delete_todo_callback sample_world 1))) = [] \<and>
   length (todos_data (session (snd (delete_todo_callback sample_world 1)))) + 1 =
     length (todos_data (session sample_world)) \<and>
   load_subtasks (db (snd (delete_todo_callback sample_world 1))) 1 =
     [Some \<lparr>sub_id = 1, todo_id = 1, sub_title = ''Collect data'', sub_done = False\<rparr>]"
proof -
  have s: "cache_in_sync sample_world" by (rule sample_world_in_sync)
  then have e: "todos_data (session sample_world) = load_all_todos (db sample_world)"
    by (simp add: cache_in_sync_def)
  have i: "1 \<in> id_t ` set (todo_rows (db sample_world))"
    by (simp add: sample_world_def sample_db_def report_todo_def)
  have l: "load_subtasks (db sample_world) 1 =
     [Some \<lparr>sub_id = 1, todo_id = 1, sub_title = ''Collect data'', sub_done = False\<rparr>]"
    by (simp add: load_subtasks_def sample_world_def sample_db_def from_row_def)
  have r: "filter (\<lambda>t. id_t t \<noteq> 1) (todo_rows (db sample_world)) = []"
    and c: "filter (\<lambda>e. fst e \<noteq> 1) (todos_data (session sample_world)) = []"
    by (simp_all add: sample_world_def sample_db_def report_todo_def)
  have len: "length (todos_data (session sample_world)) = 1"
    by (simp add: sample_world_def)
  have "todo_rows (db (snd (delete_todo_callback sample_world 1))) =
          filter (\<lambda>t. id_t t \<noteq> 1) (todo_rows (db sample_world)) \<and>
        todos_data (session (snd (delete_todo_callback sample_world 1))) =
          filter (\<lambda>e. fst e \<noteq> 1) (todos_data (session sample_world)) \<and>
        load_subtasks (db (snd (delete_todo_callback sample_world 1))) 1 =
          load_subtasks (db sample_world) 1"
    using delete_keeps_subtasks [of sample_world 1, unfolded Let_def] e by blast
  then show ?thesis
    using s i l r c len by simp
qed

section \<open>The cache is read back from the store\<close>

text \<open>
  C1. After a mutation callback has completed its write, the cache is what is read
  back from the store: the whole cache is \<^verbatim>\<open>load_all_todos\<close> of the new store after
  create and delete, and the entry of the affected identifier is \<^verbatim>\<open>load_todo\<close> of the
  new store after update and toggle-done (every other entry is left as it was). A
  callback that ends without a write leaves the cache as it was. So the cache is
  never set from the values of the form.
\<close>

theorem cache_reread_after_mutation:
  "(let r = create_todo_callback today w in
      (fst r = None \<and> writes (db (snd r)) \<noteq> writes (db w) \<longrightarrow>
         todos_data (session (snd r)) = load_all_todos (db (snd r))) \<and>
      (writes (db (snd r)) = writes (db w) \<longrightarrow>
         todos_data (session (snd r)) = todos_data (session w))) \<and>
   (let r = update_todo_callback w i in
      (fst r = None \<and> writes (db (snd r)) \<noteq> writes (db w) \<longrightarrow>
         map_of (todos_data (session (snd r))) i = Some (load_todo (db (snd r)) i) \<and>
         (\<forall>k. k \<noteq> i \<longrightarrow> map_of (todos_data (session (snd r))) k = map_of (todos_data (session w)) k)) \<and>
      (writes (db (snd r)) = writes (db w) \<longrightarrow>
         todos_data (session (snd r)) = todos_data (session w))) \<and>
   (let r = delete_todo_callback w i in
      fst r = None \<and> todos_data (session (snd r)) = load_all_todos (db (snd r))) \<and>
   (let r = mark_done_callback w i in
      (fst r = None \<longrightarrow>
         map_of (todos_data (session (snd r))) i = Some (load_todo (db (snd r)) i) \<and>
         (\<forall>k. k \<noteq> i \<longrightarrow> map_of (todos_data (session (snd r))) k = map_of (todos_data (session w)) k)) \<and>
      (fst r \<noteq> None \<longrightarrow> snd r = w))"
proof (intro conjI)
  show "let r = create_todo_callback today w in
      (fst r = None \<and> writes (db (snd r)) \<noteq> writes (db w) \<longrightarrow>
         todos_data (session (snd r)) = load_all_todos (db (snd r))) \<and>
      (writes (db (snd r)) = writes (db w) \<longrightarrow>
         todos_data (session (snd r)) = todos_data (session w))"
    by (simp add: create_todo_callback_def Let_def exec_insert_def insert_row_def
        split: option.splits bind_splits)
  show "let r = update_todo_callback w i in
      (fst r = None \<and> writes (db (snd r)) \<noteq> writes (db w) \<longrightarrow>
         map_of (todos_data (session (snd r))) i = Some (load_todo (db (snd r)) i) \<and>
         (\<forall>k. k \<noteq> i \<longrightarrow> map_of (todos_data (session (snd r))) k = map_of (todos_data (session w)) k)) \<and>
      (writes (db (snd r)) = writes (db w) \<longrightarrow>
         todos_data (session (snd r)) = todos_data (session w))"
    by (simp add: update_todo_callback_def Let_def exec_update_def update_rows_def
        map_of_dict_set split: option.splits prod.splits bind_splits)
  show "let r = delete_todo_callback w i in
      fst r = None \<and> todos_data (session (snd r)) = load_all_todos (db (snd r))"
    by (simp add: delete_todo_callback_def Let_def)
  show "let r = mark_done_callback w i in
      (fst r = None \<longrightarrow>
         map_of (todos_data (session (snd r))) i = Some (load_todo (db (snd r)) i) \<and>
         (\<forall>k. k \<noteq> i \<longrightarrow> map_of (todos_data (session (snd r))) k = map_of (todos_data (session w)) k)) \<and>
      (fst r \<noteq> None \<longrightarrow> snd r = w)"
    by (simp add: mark_done_callback_def Let_def map_of_dict_set split: option.splits)
qed

lemma filled_create:
  "fst (create_todo_callback (2024, 6, 2) filled_world) = None \<and>
   writes (db (snd (create_todo_callback (2024, 6, 2) filled_world))) \<noteq> writes (db filled_world)"
  by (simp add: create_todo_callback_def filled_world_def sample_world_def falsy_def Let_def
      exec_insert_def insert_row_def insert_accepted_def fits_def str_of_def)

lemma filled_update:
  "fst (update_todo_callback filled_world 1) = None \<and>
   writes (db (snd (update_todo_callback filled_world 1))) \<noteq> writes (db filled_world) \<and>
   load_todo (db (snd (update_todo_callback filled_world 1))) 1 =
     Some (report_todo\<lparr>title := ''Write report v2'', status := Some ''in progress''\<rparr>)"
  by (simp add: update_todo_callback_def filled_world_def sample_world_def falsy_def Let_def
      exec_update_def update_rows_def update_accepted_def fits_def sample_db_def load_todo_def
      from_row_def set_values_def report_todo_def str_of_def)

lemma filled_toggle:
  "fst (mark_done_callback filled_world 1) = None \<and>
   load_todo (db (snd (mark_done_callback filled_world 1))) 1 = Some (report_todo\<lparr>done_t := True\<rparr>)"
  by (simp add: mark_done_callback_def filled_world_def sample_world_def Let_def
      exec_update_done_def sample_db_def load_todo_def from_row_def report_todo_def)

theorem cache_reread_after_mutation_witness:
  "fst (create_todo_callback (2024, 6, 2) filled_world) = None \<and>
   writes (db (snd (create_todo_callback (2024, 6, 2) filled_world))) \<noteq> writes (db filled_world) \<and>
   todos_data (session (snd (create_todo_callback (2024, 6, 2) filled_world))) =
     load_all_todos (db (snd (create_todo_callback (2024, 6, 2) filled_world))) \<and>
   fst (update_todo_callback filled_world 1) = None \<and>
   map_of (todos_data (session (snd (update_todo_callback filled_world 1)))) 1 =
     Some (Some (report_todo\<lparr>title := ''Write report v2'', status := Some ''in progress''\<rparr>)) \<and>
   fst (mark_done_callback filled_world 1) = None \<and>
   map_of (todos_data (session (snd (mark_done_callback filled_world 1)))) 1 =
     Some (Some (report_todo\<lparr>done_t := True\<rparr>))"
  using cache_reread_after_mutation [of "(2024, 6, 2)" filled_world 1]
    filled_create filled_update filled_toggle
  by (simp add: Let_def)

section \<open>Updating a task\<close>

text \<open>
  When all five keys that \<^verbatim>\<open>update_todo_callback\<close> reads are in the session state and
  the store accepts the values, the callback issues an \<^verbatim>\<open>UPDATE\<close> of title,
  description, status, requester and due date; the row read back has these five
  values and keeps every other field, and the cache keeps mirroring the store.
\<close>

lemma update_submitted:
  assumes "text_widgets (session w) (Edit_todo_form i ''title'') = Some (Some t)" "t \<noteq> []"
    and "text_widgets (session w) (Edit_todo_form i ''description'') = Some de"
    and "text_widgets (session w) (Edit_todo_form i ''status'') = Some st"
    and "text_widgets (session w) (Edit_todo_form i ''requester'') = Some rq"
    and "date_widgets (session w) (Edit_todo_form i ''due_date'') = Some du"
    and "update_accepted (db w)
           \<lparr>title_u = t, description_u = de, status_u = st, requester_u = rq, due_at_u = du\<rparr>"
  shows "update_todo_callback w i =
     (let u = \<lparr>title_u = t, description_u = de, status_u = st, requester_u = rq, due_at_u = du\<rparr>;
          d = update_rows (db w) i u
      in (None, w\<lparr>db := d,
                  session := (session w)
                    \<lparr>todos_data := dict_set (todos_data (session w)) i (load_todo d i),
                     currently_editing := (currently_editing (session w))(i \<mapsto> False)\<rparr>\<rparr>))"
  using assms by (simp add: update_todo_callback_def falsy_def str_of_def Let_def exec_update_def)

lemma update_frame:
  assumes "cache_in_sync w" and "map_of (todos_data (session w)) i = Some (Some c)"
  shows "load_todo (update_rows (db w) i u) i =
           Some (c\<lparr>title := title_u u, description := description_u u, status := status_u u,
                   requester := requester_u u, due_at := due_at_u u\<rparr>)"
    and "dict_set (todos_data (session w)) i (load_todo (update_rows (db w) i u) i) =
           load_all_todos (update_rows (db w) i u)"
    and "distinct (map id_t (todo_rows (update_rows (db w) i u)))"
proof -
  have d: "distinct (map id_t (todo_rows (db w)))"
    and cache: "todos_data (session w) = load_all_todos (db w)"
    using assms(1) by (simp_all add: cache_in_sync_def)
  from cached_is_row [OF assms] have c: "c \<in> set (todo_rows (db w))" and i: "id_t c = i"
    by simp_all
  have rows: "todo_rows (update_rows (db w) i u) =
      map (\<lambda>r. if id_t r = id_t c then set_values u r else r) (todo_rows (db w))"
    by (simp add: update_rows_def i)
  have same: "\<And>r. id_t (set_values u r) = id_t r" by (simp add: set_values_def)
  show "load_todo (update_rows (db w) i u) i =
           Some (c\<lparr>title := title_u u, description := description_u u, status := status_u u,
                   requester := requester_u u, due_at := due_at_u u\<rparr>)"
    using load_todo_rowwise [OF d c same rows] by (simp add: i set_values_def)
  show "dict_set (todos_data (session w)) i (load_todo (update_rows (db w) i u) i) =
           load_all_todos (update_rows (db w) i u)"
    using sync_rowwise(1) [OF d c same rows] by (simp add: i cache)
  show "distinct (map id_t (todo_rows (update_rows (db w) i u)))"
    using sync_rowwise(2) [OF d c same rows] .
qed

lemma initial_load_in_sync:
  "distinct (map id_t (todo_rows d)) \<Longrightarrow>
   cache_in_sync \<lparr>db = d, session = s\<lparr>todos_data := load_all_todos d\<rparr>, toasts = ts\<rparr>"
  by (simp add: cache_in_sync_def)

text \<open>
  The edit form registers only the title, the description and the due date, so the
  keys \<^verbatim>\<open>edit_todo_form_<id>__status\<close> and \<^verbatim>\<open>edit_todo_form_<id>__requester\<close> exist in
  no session, and saving the form raises \<^verbatim>\<open>KeyError\<close> before any statement is built.
\<close>

lemma edit_form_never_updates:
  assumes "text_widgets (session w) (Edit_todo_form i ''status'') = None"
  shows "update_todo_callback (w\<lparr>session := todo_edit_widget i e (session w)\<rparr>) i =
         (Some KeyError, w\<lparr>session := todo_edit_widget i e (session w)\<rparr>)"
  using assms by (simp add: update_todo_callback_def todo_edit_widget_def split: bind_splits)

text \<open>
  C3. The claim says that a submitted edit form updates title, description, status,
  requester and due date. On the code it does not: submitting the edit form of
  task 1 of the sample store, with the title changed to ``Write report v2'', raises
  \<^verbatim>\<open>KeyError\<close> and leaves the store and the cache as they were.
\<close>

theorem edit_form_submit_raises:
  "update_todo_callback
     (sample_world\<lparr>session := todo_edit_widget 1 report_v2_edit (session sample_world)\<rparr>) 1 =
   (Some KeyError,
    sample_world\<lparr>session := todo_edit_widget 1 report_v2_edit (session sample_world)\<rparr>)"
  by (simp add: update_todo_callback_def todo_edit_widget_def sample_world_def report_v2_edit_def)

end
